theory Spec2Isabelle
  imports Main
begin

section \<open>pyopensky: the Impala shell wrapper (impala.py)\<close>

text \<open>
  A shallow embedding of \<^verbatim>\<open>src/pyopensky/impala.py\<close>. Python text is a \<open>string\<close>; a
  file holds bytes, also a \<open>string\<close>. Exceptions are values of the type \<open>error\<close>, and an
  operation that can raise returns \<open>error + 'a\<close>. What lives outside the module (the
  hash, gzip, pandas' CSV reader, the temporary directory, the SSH server) is a field of
  the record \<open>ext\<close>, passed to every function that uses it; the time parser of the
  module \<^verbatim>\<open>.time\<close> is an argument of the functions that call it.
\<close>

subsection \<open>Characters and exceptions\<close>

definition NL :: char where "NL = CHR 0x0A"
definition CR :: char where "CR = CHR 0x0D"
definition TAB :: char where "TAB = CHR 0x09"
definition SP :: char where "SP = CHR 0x20"
definition BAR :: char where "BAR = CHR 0x7C"
definition COMMA :: char where "COMMA = CHR 0x2C"

datatype error =
    ImpalaError string
  | RuntimeError string
  | TypeError
  | IndexError
  | UnboundLocalError
  | FileNotFoundError
  | BadGzipFile
  | PandasError string
  | SSHException
  | OutOfBoundsDatetime

subsection \<open>Text files\<close>

text \<open>
  A text is kept as the bytes of its encoding, so writing in text mode stores the
  characters as they are (the line separator of the platform is \<^verbatim>\<open>"\n"\<close>). Reading in
  text mode, which is what \<^verbatim>\<open>open("r")\<close> and \<^verbatim>\<open>gzip.open(_, "rt")\<close> do, turns every
  \<^verbatim>\<open>"\r\n"\<close> and every lone \<^verbatim>\<open>"\r"\<close> into \<^verbatim>\<open>"\n"\<close>.
\<close>

fun universal_newlines :: "string \<Rightarrow> string" where
  "universal_newlines [] = []"
| "universal_newlines [c] = (if c = CR then [NL] else [c])"
| "universal_newlines (c # d # cs) =
     (if c = CR then
        (if d = NL then NL # universal_newlines cs else NL # universal_newlines (d # cs))
      else c # universal_newlines (d # cs))"

text \<open>\<^verbatim>\<open>fh.readlines()\<close>: the lines of a text, each with its terminator.\<close>

fun readlines :: "string \<Rightarrow> string list" where
  "readlines [] = []"
| "readlines (c # cs) =
     (if c = NL then [c] # readlines cs
      else (case readlines cs of [] \<Rightarrow> [[c]] | l # ls \<Rightarrow> (c # l) # ls))"

text \<open>The pieces of a text between the occurrences of a separator.\<close>

fun split_on :: "char \<Rightarrow> string \<Rightarrow> string list" where
  "split_on d [] = [[]]"
| "split_on d (c # cs) =
     (if c = d then [] # split_on d cs
      else (case split_on d cs of [] \<Rightarrow> [[c]] | f # fs \<Rightarrow> (c # f) # fs))"

text \<open>A path is a directory and a file name; the file system maps a path to its bytes.\<close>

type_synonym path = "string \<times> string"
type_synonym filesystem = "path \<rightharpoonup> string"

definition path_str :: "path \<Rightarrow> string" where
  "path_str p = fst p @ ''/'' @ snd p"

definition unlink :: "filesystem \<Rightarrow> path \<Rightarrow> filesystem" where
  "unlink fs p = fs(p := None)"

definition rename :: "filesystem \<Rightarrow> path \<Rightarrow> path \<Rightarrow> filesystem" where
  "rename fs src dst = (case fs src of None \<Rightarrow> fs | Some b \<Rightarrow> (fs(src := None))(dst \<mapsto> b))"

subsection \<open>Tables and the collaborators outside the module\<close>

datatype cell = TextCell string | NumCell string | Missing

record dataframe =
  df_columns :: "string list"
  df_rows :: "cell list list"

datatype dtype = Str_dtype

datatype csv_result = Frame dataframe | ParserError string | OtherPandasError string

record ext =
  md5_hexdigest :: "string \<Rightarrow> string"
  gzip_compress :: "string \<Rightarrow> string"
  gzip_decompress :: "string \<Rightarrow> string option"
  read_csv :: "(string \<Rightarrow> dtype option) \<Rightarrow> string \<Rightarrow> csv_result"
  gettempdir :: string
  ssh_accepts :: "string option \<Rightarrow> string option \<Rightarrow> bool"

text \<open>\<^verbatim>\<open>df.drop_duplicates()\<close> keeps the first of equal rows.\<close>

definition drop_duplicates :: "dataframe \<Rightarrow> dataframe" where
  "drop_duplicates df = df\<lparr>df_rows := rev (remdups (rev (df_rows df)))\<rparr>"





text \<open>What a call returns: a table, a text, or None.\<close>

datatype result = Table dataframe | RawText string | PyNone

subsection \<open>open\_cache\_file\<close>

definition gzip_magic :: string where
  "gzip_magic = [CHR 0x1F, CHR 0x8B, CHR 0x08]"

text \<open>
  The content of the file object that \<^verbatim>\<open>open_cache_file\<close> yields: the first three bytes
  decide between \<^verbatim>\<open>gzip.open(cachename, "rt")\<close> and \<^verbatim>\<open>cachename.open("r")\<close>.
\<close>

definition open_cache_file :: "ext \<Rightarrow> filesystem \<Rightarrow> path \<Rightarrow> error + string" where
  "open_cache_file E fs cachename =
     (case fs cachename of
        None \<Rightarrow> Inl FileNotFoundError
      | Some bytes \<Rightarrow>
          if take 3 bytes = gzip_magic then
            (case gzip_decompress E bytes of
               None \<Rightarrow> Inl BadGzipFile
             | Some raw \<Rightarrow> Inr (universal_newlines raw))
          else Inr (universal_newlines bytes))"

subsection \<open>Regular expressions of the module\<close>

text \<open>
  \<^verbatim>\<open>re.sub(" *\t *", ",", line)\<close> and \<^verbatim>\<open>re.sub(r" *\| *", ",", line)\<close>: every delimiter,
  with the spaces around it, becomes a comma. Spaces that no delimiter follows stay.
\<close>

function sub_delim :: "char \<Rightarrow> string \<Rightarrow> string" where
  "sub_delim d [] = []"
| "sub_delim d (c # cs) =
     (let rest = dropWhile (\<lambda>x. x = SP) (c # cs) in
      if rest \<noteq> [] \<and> hd rest = d
      then COMMA # sub_delim d (dropWhile (\<lambda>x. x = SP) (tl rest))
      else c # sub_delim d cs)"
  by pat_completeness auto
termination
proof (relation "measure (\<lambda>(d, s). length s)")
  fix d :: char and c :: char and cs :: string and rest :: string
  assume r: "rest = dropWhile (\<lambda>x. x = SP) (c # cs)" and ne: "rest \<noteq> [] \<and> hd rest = d"
  have "length (dropWhile (\<lambda>x. x = SP) (tl rest)) \<le> length (tl rest)"
    by (rule length_dropWhile_le)
  moreover have "length (tl rest) < length rest" using ne by (cases rest) auto
  moreover have "length rest \<le> length (c # cs)" unfolding r by (rule length_dropWhile_le)
  ultimately show "((d, dropWhile (\<lambda>x. x = SP) (tl rest)), (d, c # cs))
                     \<in> measure (\<lambda>(d, s). length s)"
    by simp
qed auto

text \<open>The slice \<^verbatim>\<open>[1:-2]\<close>.\<close>

definition slice_1_m2 :: "string \<Rightarrow> string" where
  "slice_1_m2 s = drop 1 (take (length s - 2) s)"

text \<open>\<^verbatim>\<open>re.search("\t", line)\<close> and \<^verbatim>\<open>re.match(r"\|.*\|", line)\<close> (the dot stops at a newline).\<close>

definition has_tab :: "string \<Rightarrow> bool" where
  "has_tab line = (TAB \<in> set line)"

definition box_drawn :: "string \<Rightarrow> bool" where
  "box_drawn line =
     (case line of [] \<Rightarrow> False
      | c # cs \<Rightarrow> c = BAR \<and> BAR \<in> set (takeWhile (\<lambda>x. x \<noteq> NL) cs))"

text \<open>\<^verbatim>\<open>re.sub(", ", "\t", columns)\<close>.\<close>

fun sub_comma_space :: "string \<Rightarrow> string" where
  "sub_comma_space (c # d # cs) =
     (if c = COMMA \<and> d = SP then TAB # sub_comma_space cs else c # sub_comma_space (d # cs))"
| "sub_comma_space cs = cs"

text \<open>
  \<^verbatim>\<open>[int(x.group(1)) for x in re.finditer(r"line (\d)+,", msg)]\<close>: a repeated group keeps
  its last repetition, so each match gives the last digit of the number it found.
\<close>

definition is_digit :: "char \<Rightarrow> bool" where
  "is_digit c = (c \<in> set ''0123456789'')"

definition digit_value :: "char \<Rightarrow> nat" where
  "digit_value c = of_char c - 48"

definition match_line_nb :: "string \<Rightarrow> (nat \<times> string) option" where
  "match_line_nb s =
     (if take 5 s = ''line '' then
        (let ds = takeWhile is_digit (drop 5 s); r = dropWhile is_digit (drop 5 s) in
         if ds \<noteq> [] \<and> r \<noteq> [] \<and> hd r = COMMA then Some (digit_value (last ds), tl r) else None)
      else None)"

function finditer_line_nb :: "string \<Rightarrow> nat list" where
  "finditer_line_nb [] = []"
| "finditer_line_nb (c # cs) =
     (case match_line_nb (c # cs) of
        Some (n, rest) \<Rightarrow> n # finditer_line_nb rest
      | None \<Rightarrow> finditer_line_nb cs)"
  by pat_completeness auto
termination
proof (relation "measure length")
  fix c :: char and cs :: string and x2 :: "nat \<times> string" and n :: nat and rest :: string
  assume m: "match_line_nb (c # cs) = Some x2" and x: "(n, rest) = x2"
  have "length (dropWhile is_digit (drop 5 (c # cs))) \<le> length (drop 5 (c # cs))"
    by (rule length_dropWhile_le)
  then have "length (tl (dropWhile is_digit (drop 5 (c # cs)))) < length (c # cs)"
    by simp
  moreover have "rest = tl (dropWhile is_digit (drop 5 (c # cs)))"
    using m x by (auto simp: match_line_nb_def Let_def split: if_splits)
  ultimately show "(rest, c # cs) \<in> measure length" by simp
qed auto

text \<open>Indexing a list the way Python does: a negative index counts from the end.\<close>

definition py_index :: "'a list \<Rightarrow> int \<Rightarrow> error + 'a" where
  "py_index xs i =
     (if 0 \<le> i \<and> i < int (length xs) then Inr (xs ! nat i)
      else if i < 0 \<and> - int (length xs) \<le> i then Inr (xs ! nat (int (length xs) + i))
      else Inl IndexError)"

text \<open>
  The operands of \<^verbatim>\<open>+\<close> in the handler of \<^verbatim>\<open>_read_cache\<close> are a \<^verbatim>\<open>ParserError\<close> object and
  texts; \<^verbatim>\<open>+\<close> is defined between two texts only.
\<close>

datatype pyval = PyStr string | PyParserError string

fun py_add :: "pyval \<Rightarrow> pyval \<Rightarrow> error + pyval" where
  "py_add (PyStr a) (PyStr b) = Inr (PyStr (a @ b))"
| "py_add _ _ = Inl TypeError"

subsection \<open>Impala.\_read\_cache\<close>

text \<open>
  The loop over the lines of the cache file. It carries \<^verbatim>\<open>count\<close> and the buffer \<^verbatim>\<open>s\<close>;
  the third component of its result is \<^verbatim>\<open>return_df\<close>, False when the loop was left by
  \<^verbatim>\<open>break\<close>. The two tests are both made on every line (the second is not an \<^verbatim>\<open>elif\<close>).
\<close>

fun scan_lines :: "string list \<Rightarrow> nat \<Rightarrow> string \<Rightarrow> nat \<times> string \<times> bool" where
  "scan_lines [] count s = (count, s, True)"
| "scan_lines (line # later) count s =
     (let count1 = (if has_tab line then count + 1 else count);
          s1 = (if has_tab line then s @ sub_delim TAB line @ [NL] else s)
      in if box_drawn line then
           (if COMMA \<in> set line then (count1 + 1, s1, False)
            else scan_lines later (count1 + 1) (s1 @ slice_1_m2 (sub_delim BAR line) @ [NL]))
         else scan_lines later count1 s1)"


text \<open>\<^verbatim>\<open>dtype={"icao24": str, "callsign": str}\<close>.\<close>

definition impala_dtype :: "string \<Rightarrow> dtype option" where
  "impala_dtype = [''icao24'' \<mapsto> Str_dtype, ''callsign'' \<mapsto> Str_dtype]"

definition parseErrorMsg :: "string \<Rightarrow> string" where
  "parseErrorMsg path =
     [NL] @ ''    Error at parsing the cache file, moved to a temporary directory: '' @ path
     @ ''.'' @ [NL] @ ''    Running the request again may help.'' @ [NL] @ [NL]
     @ ''    For more information, find below the error and the buggy line:'' @ [NL] @ ''    ''"

text \<open>
  The \<^verbatim>\<open>for\<close> loop of the handler: for each line number found in the message, the file
  is opened again and \<^verbatim>\<open>content\<close> becomes the line of that index, if there is one.
\<close>

fun find_content ::
  "ext \<Rightarrow> filesystem \<Rightarrow> path \<Rightarrow> nat list \<Rightarrow> string option \<Rightarrow> error + string option" where
  "find_content E fs cachename [] content = Inr content"
| "find_content E fs cachename (line_nb # later) content =
     (case open_cache_file E fs cachename of
        Inl e \<Rightarrow> Inl e
      | Inr text \<Rightarrow>
          (case py_index (readlines text) (int line_nb - 1) of
             Inl e \<Rightarrow> Inl e
           | Inr c \<Rightarrow> find_content E fs cachename later (Some c)))"

text \<open>
  The handler \<^verbatim>\<open>except ParserError as error\<close>. After the loop the file is renamed, and the
  argument of \<^verbatim>\<open>ImpalaError\<close> is evaluated from the left:
  \<^verbatim>\<open>Impala._parseErrorMsg.format(path=new_path) + (error + "\n" + content)\<close>.
\<close>

definition parse_error_handler ::
  "ext \<Rightarrow> filesystem \<Rightarrow> path \<Rightarrow> string \<Rightarrow> (error + result) \<times> filesystem" where
  "parse_error_handler E fs cachename msg =
     (case find_content E fs cachename (finditer_line_nb msg) None of
        Inl e \<Rightarrow> (Inl e, fs)
      | Inr content \<Rightarrow>
          (let new_path = (gettempdir E, snd cachename);
               fs1 = rename fs cachename new_path
           in case py_add (PyParserError msg) (PyStr [NL]) of
                Inl e \<Rightarrow> (Inl e, fs1)
              | Inr v \<Rightarrow>
                  (case content of
                     None \<Rightarrow> (Inl UnboundLocalError, fs1)
                   | Some c \<Rightarrow>
                       (case py_add v (PyStr c) of
                          Inl e \<Rightarrow> (Inl e, fs1)
                        | Inr w \<Rightarrow>
                            (case py_add (PyStr (parseErrorMsg (path_str new_path))) w of
                               Inl e \<Rightarrow> (Inl e, fs1)
                             | Inr (PyStr m) \<Rightarrow> (Inl (ImpalaError m), fs1)
                             | Inr _ \<Rightarrow> (Inl TypeError, fs1))))))"

text \<open>The last part of \<^verbatim>\<open>_read_cache\<close>: the search for an error banner.\<close>

definition error_scan :: "ext \<Rightarrow> filesystem \<Rightarrow> path \<Rightarrow> (error + result) \<times> filesystem" where
  "error_scan E fs cachename =
     (case open_cache_file E fs cachename of
        Inl e \<Rightarrow> (Inl e, fs)
      | Inr text \<Rightarrow>
          (let output = readlines text in
           if list_ex (\<lambda>elt. take 6 elt = ''ERROR:'') output
           then (Inl (ImpalaError (concat (butlast output))), unlink fs cachename)
           else (Inr PyNone, fs)))"

definition Impala_read_cache ::
  "ext \<Rightarrow> filesystem \<Rightarrow> path \<Rightarrow> (error + result) \<times> filesystem" where
  "Impala_read_cache E fs cachename =
     (case open_cache_file E fs cachename of
        Inl e \<Rightarrow> (Inl e, fs)
      | Inr text \<Rightarrow>
          (case scan_lines (readlines text) 0 [] of
             (count, s, return_df) \<Rightarrow>
               if \<not> return_df then (Inr (RawText (concat (readlines text))), fs)
               else if count > 0 then
                 (case read_csv E impala_dtype s of
                    ParserError msg \<Rightarrow> parse_error_handler E fs cachename msg
                  | OtherPandasError msg \<Rightarrow> (Inl (PandasError msg), fs)
                  | Frame df \<Rightarrow>
                      if length (df_rows df) > 0 then (Inr (Table (drop_duplicates df)), fs)
                      else error_scan E fs cachename)
               else error_scan E fs cachename))"

subsection \<open>The session and the cache: Impala.\_\_init\_\_, \_connect, \_impala\<close>

record Impala =
  username :: "string option"
  password :: "string option"
  proxy_command :: "string option"
  connected :: bool
  cache_dir :: string
  auth :: "(string option \<times> string option) option"

text \<open>
  The world outside the object: the files, the chunks that the channel will deliver to
  \<^verbatim>\<open>recv\<close> (in order; once they are used up nothing arrives any more), the commands sent on
  the channel, and the calls of \<^verbatim>\<open>client.connect\<close> with their user name, password and
  proxy command.
\<close>

record world =
  files :: filesystem
  channel :: "string list"
  sent :: "string list"
  ssh_connects :: "(string option \<times> string option \<times> string option) list"

definition Impala_init ::
  "string option \<Rightarrow> string option \<Rightarrow> string option \<Rightarrow> string \<Rightarrow> Impala" where
  "Impala_init impala_username impala_password ssh_proxycommand cache_path =
     \<lparr>username = impala_username, password = impala_password,
      proxy_command = ssh_proxycommand, connected = False, cache_dir = cache_path,
      auth = (if impala_username = Some [] \<or> impala_password = Some [] then None
              else Some (impala_username, impala_password))\<rparr>"

definition prompt :: string where
  "prompt = '':21000] > ''"

text \<open>
  \<^verbatim>\<open>while len(total) == 0 or total[-10:] != ":21000] > ": total += recv(256).decode()\<close>.
  The result is None when the chunks run out before the prompt: the loop never ends.
\<close>

primrec recv_until_prompt :: "string list \<Rightarrow> string \<Rightarrow> (string \<times> string list) option" where
  "recv_until_prompt [] received =
     (if length received = 0 \<or> drop (length received - 10) received \<noteq> prompt then None
      else Some (received, []))"
| "recv_until_prompt (b # bs) received =
     (if length received = 0 \<or> drop (length received - 10) received \<noteq> prompt
      then recv_until_prompt bs (received @ b)
      else Some (received, b # bs))"

text \<open>A call either does not return (None) or raises or returns.\<close>

type_synonym 'a outcome = "(error + 'a) option"

definition Impala_connect :: "ext \<Rightarrow> Impala \<Rightarrow> world \<Rightarrow> unit outcome \<times> Impala \<times> world" where
  "Impala_connect E self w =
     (if username self = Some [] \<or> password self = Some []
      then (Some (Inl (RuntimeError ''This method requires authentication.'')), self, w)
      else
        (let sock = (if proxy_command self \<noteq> None \<and> proxy_command self \<noteq> Some []
                     then proxy_command self else None);
             w1 = w\<lparr>ssh_connects := ssh_connects w @ [(username self, password self, sock)]\<rparr>
         in if \<not> ssh_accepts E (username self) (password self)
            then (Some (Inl SSHException), self, w1)
            else
              (case recv_until_prompt (channel w1) [] of
                 None \<Rightarrow> (None, self\<lparr>connected := True\<rparr>, w1\<lparr>channel := []\<rparr>)
               | Some (received, rest) \<Rightarrow>
                   (Some (Inr ()), self\<lparr>connected := True\<rparr>, w1\<lparr>channel := rest\<rparr>))))"

text \<open>
  The writes of \<^verbatim>\<open>_impala\<close> into the cache, one file system operation after the other.
  Opening for writing creates the file, empty, under its own name. A plain handle hands
  each \<^verbatim>\<open>write\<close> to the file; a gzip handle hands over the compressed bytes.
\<close>

datatype fsop = Open_w path | Write path string

fun apply_op :: "filesystem \<Rightarrow> fsop \<Rightarrow> filesystem" where
  "apply_op fs (Open_w p) = fs(p \<mapsto> [])"
| "apply_op fs (Write p x) = (case fs p of None \<Rightarrow> fs(p \<mapsto> x) | Some old \<Rightarrow> fs(p \<mapsto> old @ x))"

definition apply_ops :: "filesystem \<Rightarrow> fsop list \<Rightarrow> filesystem" where
  "apply_ops fs ops = foldl apply_op fs ops"

definition header_writes :: "string option \<Rightarrow> string list" where
  "header_writes columns =
     (case columns of None \<Rightarrow> [] | Some c \<Rightarrow> [sub_comma_space c, [NL]])"

definition stored_text :: "string option \<Rightarrow> string \<Rightarrow> string" where
  "stored_text columns received = concat (header_writes columns @ [received])"

definition cache_writes ::
  "ext \<Rightarrow> path \<Rightarrow> string option \<Rightarrow> string \<Rightarrow> bool \<Rightarrow> fsop list" where
  "cache_writes E cachename columns received compress =
     (if compress
      then [Open_w cachename, Write cachename (gzip_compress E (stored_text columns received))]
      else Open_w cachename # map (Write cachename) (header_writes columns @ [received]))"

text \<open>
  The file system that a crash leaves behind when it comes after the first \<open>k\<close>
  operations of a list.
\<close>

definition crash_after :: "nat \<Rightarrow> filesystem \<Rightarrow> fsop list \<Rightarrow> filesystem" where
  "crash_after k fs ops = apply_ops fs (take k ops)"

fun op_path :: "fsop \<Rightarrow> path" where
  "op_path (Open_w p) = p"
| "op_path (Write p x) = p"

definition read_result :: "ext \<Rightarrow> Impala \<Rightarrow> world \<Rightarrow> path \<Rightarrow> result outcome \<times> Impala \<times> world" where
  "read_result E self w cachename =
     (case Impala_read_cache E (files w) cachename of
        (r, fs) \<Rightarrow> (Some r, self, w\<lparr>files := fs\<rparr>))"

definition Impala_impala ::
  "ext \<Rightarrow> Impala \<Rightarrow> world \<Rightarrow> string \<Rightarrow> string option \<Rightarrow> bool \<Rightarrow> bool \<Rightarrow>
     result outcome \<times> Impala \<times> world" where
  "Impala_impala E self w request columns cached compress =
     (let digest = md5_hexdigest E request;
          cachename = (cache_dir self, digest);
          w1 = (if files w cachename \<noteq> None \<and> \<not> cached
                then w\<lparr>files := unlink (files w) cachename\<rparr> else w)
      in if files w1 cachename = None then
           (case (if \<not> connected self then Impala_connect E self w1
                  else (Some (Inr ()), self, w1)) of
              (None, self2, w2) \<Rightarrow> (None, self2, w2)
            | (Some (Inl e), self2, w2) \<Rightarrow> (Some (Inl e), self2, w2)
            | (Some (Inr u), self2, w2) \<Rightarrow>
                (let request1 = map (\<lambda>c. if c = NL then SP else c) request;
                     w3 = w2\<lparr>sent := sent w2 @ [request1 @ '';'' @ [NL]]\<rparr>
                 in case recv_until_prompt (channel w3) [] of
                      None \<Rightarrow> (None, self2, w3\<lparr>channel := []\<rparr>)
                    | Some (received, rest) \<Rightarrow>
                        read_result E self2
                          (w3\<lparr>channel := rest,
                              files := apply_ops (files w3)
                                         (cache_writes E cachename columns received compress)\<rparr>)
                          cachename))
         else read_result E self w1 cachename)"

text \<open>The same call of \<^verbatim>\<open>_impala\<close> made a second time, on the state that the first one left.\<close>

definition second_run ::
  "ext \<Rightarrow> Impala \<Rightarrow> world \<Rightarrow> string \<Rightarrow> string option \<Rightarrow> bool \<Rightarrow> bool \<Rightarrow>
     result outcome \<times> Impala \<times> world" where
  "second_run E self w request columns cached compress =
     (case Impala_impala E self w request columns cached compress of
        (r1, self1, w1) \<Rightarrow> Impala_impala E self1 w1 request columns cached compress)"

subsection \<open>A reference instance of the collaborators\<close>

text \<open>
  Closed examples need the collaborators as concrete functions. The digest below writes
  each byte as two hexadecimal digits; the compressor puts the three magic bytes before
  the data; the CSV reader takes the first non-blank line as the header, fails on a row
  with more fields than the header (counting blank lines, as pandas does), and types a
  field as text when its column is declared \<^verbatim>\<open>str\<close> or when it is not a number.
\<close>

definition hex_digit :: "nat \<Rightarrow> char" where
  "hex_digit n = ''0123456789abcdef'' ! (n mod 16)"

definition ref_hexdigest :: "string \<Rightarrow> string" where
  "ref_hexdigest s = concat (map (\<lambda>c. [hex_digit (of_char c div 16), hex_digit (of_char c)]) s)"

definition ref_compress :: "string \<Rightarrow> string" where
  "ref_compress s = gzip_magic @ s"

definition ref_decompress :: "string \<Rightarrow> string option" where
  "ref_decompress b = (if take 3 b = gzip_magic then Some (drop 3 b) else None)"

fun show_nat :: "nat \<Rightarrow> string" where
  "show_nat n =
     (if n < 10 then [hex_digit n] else show_nat (n div 10) @ [hex_digit (n mod 10)])"

definition looks_numeric :: "string \<Rightarrow> bool" where
  "looks_numeric f = (f \<noteq> [] \<and> is_digit (hd f) \<and> list_all (\<lambda>c. c \<in> set ''0123456789.e+-'') f)"

definition typed_cell :: "(string \<Rightarrow> dtype option) \<Rightarrow> string \<Rightarrow> string \<Rightarrow> cell" where
  "typed_cell dt col f =
     (if f = [] then Missing
      else if dt col = Some Str_dtype then TextCell f
      else if looks_numeric f then NumCell f
      else TextCell f)"

fun typed_row :: "(string \<Rightarrow> dtype option) \<Rightarrow> string list \<Rightarrow> string list \<Rightarrow> cell list" where
  "typed_row dt [] fs = []"
| "typed_row dt (col # cols) [] = Missing # typed_row dt cols []"
| "typed_row dt (col # cols) (f # fs) = typed_cell dt col f # typed_row dt cols fs"

fun typed_rows ::
  "(string \<Rightarrow> dtype option) \<Rightarrow> string list \<Rightarrow> (nat \<times> string) list \<Rightarrow> string + cell list list" where
  "typed_rows dt header [] = Inr []"
| "typed_rows dt header ((k, l) # ls) =
     (let fs = split_on COMMA l in
      if length fs > length header
      then Inl (''Error tokenizing data. C error: Expected '' @ show_nat (length header)
                @ '' fields in line '' @ show_nat k @ '', saw '' @ show_nat (length fs) @ [NL])
      else (case typed_rows dt header ls of
              Inl m \<Rightarrow> Inl m
            | Inr rs \<Rightarrow> Inr (typed_row dt header fs # rs)))"

definition ref_read_csv :: "(string \<Rightarrow> dtype option) \<Rightarrow> string \<Rightarrow> csv_result" where
  "ref_read_csv dt s =
     (let ls = split_on NL s;
          numbered = filter (\<lambda>(k, l). l \<noteq> []) (zip [1 ..< Suc (length ls)] ls)
      in case numbered of
           [] \<Rightarrow> OtherPandasError ''No columns to parse from file''
         | (k, h) # later \<Rightarrow>
             (case typed_rows dt (split_on COMMA h) later of
                Inl m \<Rightarrow> ParserError m
              | Inr rs \<Rightarrow> Frame \<lparr>df_columns = split_on COMMA h, df_rows = rs\<rparr>))"

definition ref_ext :: ext where
  "ref_ext = \<lparr>md5_hexdigest = ref_hexdigest, gzip_compress = ref_compress,
             gzip_decompress = ref_decompress, read_csv = ref_read_csv,
             gettempdir = ''/tmp'', ssh_accepts = (\<lambda>u p. u \<noteq> None \<and> p \<noteq> None)\<rparr>"

subsection \<open>Examples\<close>

definition ex_path :: path where
  "ex_path = (''cache'', ''0f343b0931126a20f133d67c2b018a3b'')"

text \<open>The answer to \<^verbatim>\<open>describe\<close>: box-drawn lines, one of them with a comma.\<close>

definition ex_describe :: string where
  "ex_describe =
     ''| name    | type          |'' @ [NL] @
     ''| sensors | array<struct< |'' @ [NL] @
     ''|         |   serial:int, |'' @ [NL] @
     ''[hadoop-1:21000] > ''"

text \<open>The same kind of answer as the terminal sends it, each line ended by \<^verbatim>\<open>"\r\n"\<close>.\<close>

definition ex_pty_describe :: string where
  "ex_pty_describe = ''| name | type |'' @ [CR, NL] @ ''| a | b,c |'' @ [CR, NL] @ ''[hadoop-1:21000] > ''"

text \<open>An error banner followed by the prompt, without and with a header line.\<close>

definition ex_disk_full :: string where
  "ex_disk_full = ''ERROR: disk full'' @ [NL] @ ''[hadoop-1:21000] > ''"

definition ex_disk_full_header :: string where
  "ex_disk_full_header = ''time'' @ [TAB] @ ''icao24'' @ [NL] @ ex_disk_full"

text \<open>Ten box-drawn lines; the fifth has a field too many.\<close>

definition ex_malformed :: string where
  "ex_malformed =
     ''| time | icao24 |'' @ [NL] @
     ''| 1 | a1b2c3 |'' @ [NL] @
     ''| 2 | a1b2c3 |'' @ [NL] @
     ''| 3 | a1b2c3 |'' @ [NL] @
     ''| 4 | a1b2c3 | 7 |'' @ [NL] @
     ''| 5 | a1b2c3 |'' @ [NL] @
     ''| 6 | a1b2c3 |'' @ [NL] @
     ''| 7 | a1b2c3 |'' @ [NL] @
     ''| 8 | a1b2c3 |'' @ [NL] @
     ''| 9 | a1b2c3 |'' @ [NL]"

text \<open>A transcript with one tab-separated row, as the terminal sends it, and the prompt.\<close>

definition ex_rows :: string where
  "ex_rows = ''1500000000'' @ [TAB] @ ''a1b2c3'' @ [CR, NL] @ ''[hadoop-1:21000] > ''"

text \<open>
  A session with credentials that is not connected yet, and two worlds with an empty
  cache: the channel delivers the greeting and then, twice over, the answer to a query.
\<close>

definition ex_self :: Impala where
  "ex_self = Impala_init (Some ''user'') (Some ''secret'') None ''cache''"

definition ex_request :: string where
  "ex_request = ''select time, icao24 from state_vectors_data4 limit 1''"

definition ex_world_rows :: world where
  "ex_world_rows = \<lparr>files = Map.empty,
                     channel = [''[hadoop-1:21000] > '', ex_rows, ex_rows],
                     sent = [], ssh_connects = []\<rparr>"

definition ex_world_error :: world where
  "ex_world_error = \<lparr>files = Map.empty,
                      channel = [''[hadoop-1:21000] > '', ex_disk_full, ex_disk_full],
                      sent = [], ssh_connects = []\<rparr>"

text \<open>The table that the row of \<open>ex_rows\<close> makes under its header.\<close>

definition ex_table :: dataframe where
  "ex_table = \<lparr>df_columns = [''time'', ''icao24''],
               df_rows = [[NumCell ''1500000000'', TextCell ''a1b2c3'']]\<rparr>"



subsection \<open>Time bounds of a query\<close>

text \<open>
  A \<^verbatim>\<open>pd.Timestamp\<close> is a count of nanoseconds since the epoch held in 64 bits;
  adding a \<^verbatim>\<open>pd.Timedelta\<close> beyond the largest timestamp raises. The parser
  \<^verbatim>\<open>to_datetime\<close> of the module \<^verbatim>\<open>.time\<close> is a parameter: it may reject its argument.
\<close>

type_synonym timestamp = int

definition Timestamp_max :: timestamp where
  "Timestamp_max = 2 ^ 63 - 1"

definition Timedelta_1d :: int where
  "Timedelta_1d = 86400 * 1000000000"

definition timestamp_add :: "timestamp \<Rightarrow> int \<Rightarrow> error + timestamp" where
  "timestamp_add t d = (if t + d > Timestamp_max then Inl OutOfBoundsDatetime else Inr (t + d))"

text \<open>
  The five lines shared, letter for letter, by \<^verbatim>\<open>request\<close>, \<^verbatim>\<open>flightlist\<close>,
  \<^verbatim>\<open>history\<close> and \<^verbatim>\<open>rawdata\<close>:
  \<^verbatim>\<open>
  start_ts = to_datetime(start)
  stop_ts = (
      to_datetime(stop)
      if stop is not None
      else start_ts + pd.Timedelta("1d")
  )
  \<close>
\<close>

definition time_bounds ::
  "('t \<Rightarrow> error + timestamp) \<Rightarrow> 't \<Rightarrow> 't option \<Rightarrow> error + (timestamp \<times> timestamp)" where
  "time_bounds to_datetime start stop =
     (case to_datetime start of
        Inl e \<Rightarrow> Inl e
      | Inr start_ts \<Rightarrow>
          (case (case stop of
                   Some s \<Rightarrow> to_datetime s
                 | None \<Rightarrow> timestamp_add start_ts Timedelta_1d) of
             Inl e \<Rightarrow> Inl e
           | Inr stop_ts \<Rightarrow> Inr (start_ts, stop_ts)))"

definition request_bounds ::
  "('t \<Rightarrow> error + timestamp) \<Rightarrow> 't \<Rightarrow> 't option \<Rightarrow> error + (timestamp \<times> timestamp)" where
  "request_bounds to_datetime start stop = time_bounds to_datetime start stop"

definition flightlist_bounds ::
  "('t \<Rightarrow> error + timestamp) \<Rightarrow> 't \<Rightarrow> 't option \<Rightarrow> error + (timestamp \<times> timestamp)" where
  "flightlist_bounds to_datetime start stop = time_bounds to_datetime start stop"

definition history_bounds ::
  "('t \<Rightarrow> error + timestamp) \<Rightarrow> 't \<Rightarrow> 't option \<Rightarrow> error + (timestamp \<times> timestamp)" where
  "history_bounds to_datetime start stop = time_bounds to_datetime start stop"

definition raw_tables :: "string list" where
  "raw_tables =
     [''acas_data4'', ''allcall_replies_data4'', ''identification_data4'',
      ''operational_status_data4'', ''position_data4'', ''rollcall_replies_data4'',
      ''velocity_data4'']"

text \<open>
  The argument \<^verbatim>\<open>table_name\<close> of \<^verbatim>\<open>rawdata\<close> is None (the default), one name, or a list
  of names.
\<close>

datatype table_name = TableNone | TableStr string | TableList "string list"

text \<open>
  A call of \<^verbatim>\<open>rawdata\<close> for one table: a name outside \<^verbatim>\<open>_raw_tables\<close> raises, then the
  bounds are computed.
\<close>

definition rawdata_table_bounds ::
  "('t \<Rightarrow> error + timestamp) \<Rightarrow> string \<Rightarrow> 't \<Rightarrow> 't option \<Rightarrow>
     error + (timestamp \<times> timestamp)" where
  "rawdata_table_bounds to_datetime t start stop =
     (if t \<notin> set raw_tables then Inl (RuntimeError (t @ '' is not a valid table name''))
      else time_bounds to_datetime start stop)"

text \<open>
  \<^verbatim>\<open>list(self.rawdata(start, stop, table_name=table, ...) for table in table_name)\<close>: one
  call per table, in order, each with the \<^verbatim>\<open>start\<close> and \<^verbatim>\<open>stop\<close> as they were given. The
  result lists the bounds of these calls; the first call that raises ends the list.
\<close>

fun rawdata_pieces_bounds ::
  "('t \<Rightarrow> error + timestamp) \<Rightarrow> string list \<Rightarrow> 't \<Rightarrow> 't option \<Rightarrow>
     error + (timestamp \<times> timestamp) list" where
  "rawdata_pieces_bounds to_datetime [] start stop = Inr []"
| "rawdata_pieces_bounds to_datetime (table # tables) start stop =
     (case rawdata_table_bounds to_datetime table start stop of
        Inl e \<Rightarrow> Inl e
      | Inr b \<Rightarrow>
          (case rawdata_pieces_bounds to_datetime tables start stop of
             Inl e \<Rightarrow> Inl e
           | Inr bs \<Rightarrow> Inr (b # bs)))"

text \<open>
  \<^verbatim>\<open>rawdata\<close>: None stands for the list of all of \<^verbatim>\<open>_raw_tables\<close>; a list makes one call
  per table; a single name is the call itself. The result lists the bounds of every
  single-table call made.
\<close>

definition rawdata_bounds ::
  "('t \<Rightarrow> error + timestamp) \<Rightarrow> table_name \<Rightarrow> 't \<Rightarrow> 't option \<Rightarrow>
     error + (timestamp \<times> timestamp) list" where
  "rawdata_bounds to_datetime table_name start stop =
     (case table_name of
        TableNone \<Rightarrow> rawdata_pieces_bounds to_datetime raw_tables start stop
      | TableList tables \<Rightarrow> rawdata_pieces_bounds to_datetime tables start stop
      | TableStr t \<Rightarrow>
          (case rawdata_table_bounds to_datetime t start stop of
             Inl e \<Rightarrow> Inl e
           | Inr b \<Rightarrow> Inr [b]))"

section \<open>Theorems\<close>

subsection \<open>Facts about the parts of \_read\_cache\<close>

lemma concat_readlines: "concat (readlines t) = t"
  by (induction t) (auto split: list.splits)

lemma scan_lines_break:
  "\<exists>l\<in>set ls. box_drawn l \<and> COMMA \<in> set l \<Longrightarrow> snd (snd (scan_lines ls c s)) = False"
proof (induction ls arbitrary: c s)
  case Nil
  then show ?case by simp
next
  case (Cons a ls)
  show ?case
  proof (cases "box_drawn a \<and> COMMA \<in> set a")
    case True
    then show ?thesis by (simp add: Let_def)
  next
    case False
    with Cons.prems have "\<exists>l\<in>set ls. box_drawn l \<and> COMMA \<in> set l" by auto
    then have "\<And>c s. snd (snd (scan_lines ls c s)) = False" by (rule Cons.IH)
    then show ?thesis using False by (simp add: Let_def)
  qed
qed

lemma parse_error_handler_eq:
  "parse_error_handler E fs p msg =
     (case find_content E fs p (finditer_line_nb msg) None of
        Inl e \<Rightarrow> (Inl e, fs)
      | Inr content \<Rightarrow> (Inl TypeError, rename fs p (gettempdir E, snd p)))"
  by (simp add: parse_error_handler_def Let_def split: sum.splits)

lemma py_index_error: "py_index xs i = Inl e \<Longrightarrow> e = IndexError"
  by (auto simp: py_index_def split: if_splits)

lemma find_content_error:
  "open_cache_file E fs p = Inr body \<Longrightarrow> find_content E fs p ns c = Inl e \<Longrightarrow> e = IndexError"
  by (induction ns arbitrary: c) (auto split: sum.splits dest: py_index_error)

lemma error_scan_returns:
  "error_scan E fs p = (Inr r, fs') \<Longrightarrow> fs' = fs \<and> r = PyNone"
  by (auto simp: error_scan_def Let_def split: sum.splits if_splits)

lemma read_cache_returns:
  assumes "Impala_read_cache E fs p = (Inr r, fs')"
  shows "fs' = fs \<and> (\<exists>b. fs p = Some b)"
proof -
  obtain body where t: "open_cache_file E fs p = Inr body"
    using assms by (cases "open_cache_file E fs p") (auto simp: Impala_read_cache_def)
  then have ex: "\<exists>b. fs p = Some b"
    by (cases "fs p") (auto simp: open_cache_file_def)
  obtain count s rdf where sc: "scan_lines (readlines body) 0 [] = (count, s, rdf)"
    by (cases "scan_lines (readlines body) 0 []") auto
  have "fs' = fs"
    using assms t sc
    by (auto simp: Impala_read_cache_def parse_error_handler_eq
             split: if_splits csv_result.splits sum.splits dest: error_scan_returns)
  with ex show ?thesis by simp
qed

lemma read_cache_rawtext:
  assumes "Impala_read_cache E fs p = (Inr (RawText t), fs')"
  shows "open_cache_file E fs p = Inr t"
proof -
  obtain body where t: "open_cache_file E fs p = Inr body"
    using assms by (cases "open_cache_file E fs p") (auto simp: Impala_read_cache_def)
  obtain count s rdf where sc: "scan_lines (readlines body) 0 [] = (count, s, rdf)"
    by (cases "scan_lines (readlines body) 0 []") auto
  have "t = body"
    using assms t sc
    by (auto simp: Impala_read_cache_def parse_error_handler_eq concat_readlines
             split: if_splits csv_result.splits sum.splits dest: error_scan_returns)
  with t show ?thesis by simp
qed

lemma foldl_writes:
  "foldl apply_op (fs(p \<mapsto> acc)) (map (Write p) xs) = fs(p \<mapsto> acc @ concat xs)"
  by (induction xs arbitrary: acc) auto

lemma cache_writes_plain:
  "apply_ops fs (cache_writes E p columns received False) = fs(p \<mapsto> stored_text columns received)"
  using foldl_writes [of fs p "[]"]
  by (simp add: apply_ops_def cache_writes_def stored_text_def)

lemma cache_writes_gzip:
  "apply_ops fs (cache_writes E p columns received True)
     = fs(p \<mapsto> gzip_compress E (stored_text columns received))"
  by (simp add: apply_ops_def cache_writes_def)

subsection \<open>The claims about \_read\_cache\<close>

text \<open>
  Claim C10. Whenever \<^verbatim>\<open>_read_cache\<close> returns raw text, the file system is as it was
  before the call (the cache file is still there, under its name, with its bytes), and
  the text returned is the whole text of the file. For a file that \<^verbatim>\<open>_impala\<close> wrote,
  uncompressed, with a column header, this is the header line followed by the
  transcript.
\<close>

theorem rawtext_leaves_cache_entry:
  assumes "Impala_read_cache E fs cachename = (Inr (RawText t), fs')"
  shows "fs' = fs \<and> (\<exists>bytes. fs cachename = Some bytes)
       \<and> open_cache_file E fs cachename = Inr t
       \<and> (\<forall>fs0 cols received.
             fs = apply_ops fs0 (cache_writes E cachename (Some cols) received False)
             \<and> take 3 (sub_comma_space cols @ [NL] @ received) \<noteq> gzip_magic
             \<longrightarrow> t = universal_newlines (sub_comma_space cols @ [NL] @ received))"
proof -
  have o: "open_cache_file E fs cachename = Inr t"
    using assms by (rule read_cache_rawtext)
  have "t = universal_newlines (sub_comma_space cols @ [NL] @ received)"
    if "fs = apply_ops fs0 (cache_writes E cachename (Some cols) received False)"
      and "take 3 (sub_comma_space cols @ [NL] @ received) \<noteq> gzip_magic"
    for fs0 cols received
  proof -
    have "fs cachename = Some (sub_comma_space cols @ [NL] @ received)"
      using that(1) by (simp add: cache_writes_plain stored_text_def header_writes_def)
    then show ?thesis
      using o that(2) by (simp add: open_cache_file_def)
  qed
  with o read_cache_returns [OF assms] show ?thesis by blast
qed

theorem rawtext_leaves_cache_entry_witness:
  "fst (Impala_read_cache ref_ext
          (apply_ops Map.empty (cache_writes ref_ext ex_path (Some ''name, type'') ex_describe False))
          ex_path)
     = Inr (RawText (''name'' @ [TAB] @ ''type'' @ [NL] @ ex_describe))
   \<and> snd (Impala_read_cache ref_ext
          (apply_ops Map.empty (cache_writes ref_ext ex_path (Some ''name, type'') ex_describe False))
          ex_path)
     = apply_ops Map.empty (cache_writes ref_ext ex_path (Some ''name, type'') ex_describe False)"
proof -
  let ?fs = "apply_ops Map.empty (cache_writes ref_ext ex_path (Some ''name, type'') ex_describe False)"
  have a: "fst (Impala_read_cache ref_ext ?fs ex_path)
             = Inr (RawText (''name'' @ [TAB] @ ''type'' @ [NL] @ ex_describe))"
    by code_simp
  then have "Impala_read_cache ref_ext ?fs ex_path
               = (Inr (RawText (''name'' @ [TAB] @ ''type'' @ [NL] @ ex_describe)),
                  snd (Impala_read_cache ref_ext ?fs ex_path))"
    by (metis prod.collapse)
  from rawtext_leaves_cache_entry [OF this] a show ?thesis by simp
qed

text \<open>
  Claim C3, as amended. When the loop has found no data row (it counted no line, or the
  table read from the lines it counted has no row) and some line of the file starts with
  \<^verbatim>\<open>ERROR:\<close>, \<^verbatim>\<open>_read_cache\<close> unlinks the cache file and raises \<^verbatim>\<open>ImpalaError\<close>. Its
  message is made of the lines of the file, the header line among them, each with its
  newline, up to but excluding the last line.
\<close>

theorem error_banner_raises_and_unlinks:
  assumes "open_cache_file E fs cachename = Inr body"
    and "scan_lines (readlines body) 0 [] = (count, s, True)"
    and "count = 0 \<or> (\<exists>df. read_csv E impala_dtype s = Frame df \<and> df_rows df = [])"
    and "\<exists>line\<in>set (readlines body). take 6 line = ''ERROR:''"
  shows "Impala_read_cache E fs cachename
           = (Inl (ImpalaError (concat (butlast (readlines body)))), fs(cachename := None))"
proof -
  have scan: "error_scan E fs cachename
           = (Inl (ImpalaError (concat (butlast (readlines body)))), fs(cachename := None))"
    using assms(1) assms(4) by (simp add: error_scan_def Let_def list_ex_iff unlink_def)
  show ?thesis
    using assms(1) assms(2) assms(3) scan
    by (auto simp: Impala_read_cache_def)
qed

theorem error_banner_raises_and_unlinks_witness:
  "Impala_read_cache ref_ext [ex_path \<mapsto> ex_disk_full_header] ex_path
     = (Inl (ImpalaError (''time'' @ [TAB] @ ''icao24'' @ [NL] @ ''ERROR: disk full'' @ [NL])),
        Map.empty)"
proof -
  let ?fs = "[ex_path \<mapsto> ex_disk_full_header]"
  have a: "open_cache_file ref_ext ?fs ex_path = Inr ex_disk_full_header"
    by code_simp
  have b: "scan_lines (readlines ex_disk_full_header) 0 []
             = (1, ''time,icao24'' @ [NL, NL], True)"
    by code_simp
  have c: "read_csv ref_ext impala_dtype (''time,icao24'' @ [NL, NL])
             = Frame \<lparr>df_columns = [''time'', ''icao24''], df_rows = []\<rparr>"
    by code_simp
  have d: "list_ex (\<lambda>line. take 6 line = ''ERROR:'') (readlines ex_disk_full_header)"
    by code_simp
  then have d': "\<exists>line\<in>set (readlines ex_disk_full_header). take 6 line = ''ERROR:''"
    by (simp add: list_ex_iff)
  have e: "concat (butlast (readlines ex_disk_full_header))
             = ''time'' @ [TAB] @ ''icao24'' @ [NL] @ ''ERROR: disk full'' @ [NL]"
    by code_simp
  have "(1::nat) = 0 \<or> (\<exists>df. read_csv ref_ext impala_dtype (''time,icao24'' @ [NL, NL]) = Frame df \<and> df_rows df = [])"
    using c by simp
  from error_banner_raises_and_unlinks [OF a b this d'] e show ?thesis by simp
qed

text \<open>
  The claim as it was stated fails on its own example. The file holds the banner and the
  prompt: the message ends with the newline of the banner's line. When the banner is the
  only line, it is the last line, and the message is empty. When the file starts with a
  header line, the message starts with it.
\<close>

theorem disk_full_message_counterexample:
  "fst (Impala_read_cache ref_ext [ex_path \<mapsto> ex_disk_full] ex_path)
     = Inl (ImpalaError (''ERROR: disk full'' @ [NL]))
   \<and> fst (Impala_read_cache ref_ext [ex_path \<mapsto> ex_disk_full] ex_path)
     \<noteq> Inl (ImpalaError ''ERROR: disk full'')
   \<and> fst (Impala_read_cache ref_ext [ex_path \<mapsto> ''ERROR: disk full''] ex_path)
     = Inl (ImpalaError [])
   \<and> fst (Impala_read_cache ref_ext [ex_path \<mapsto> ex_disk_full_header] ex_path)
     = Inl (ImpalaError (''time'' @ [TAB] @ ''icao24'' @ [NL] @ ''ERROR: disk full'' @ [NL]))"
  by code_simp

text \<open>
  Claim C2. When the lines counted by the loop make pandas raise \<^verbatim>\<open>ParserError\<close>, the
  handler of \<^verbatim>\<open>_read_cache\<close> does not raise the \<^verbatim>\<open>ImpalaError\<close> it builds: either the
  file is moved to the temporary directory and the sum \<^verbatim>\<open>error + "\n"\<close> of an exception and
  a text raises \<^verbatim>\<open>TypeError\<close>, or a line number found in the message is out of range,
  \<^verbatim>\<open>IndexError\<close> is raised and the file stays where it is.
\<close>

theorem parser_error_never_raises_ImpalaError:
  assumes "open_cache_file E fs cachename = Inr body"
    and "scan_lines (readlines body) 0 [] = (count, s, True)"
    and "count > 0"
    and "read_csv E impala_dtype s = ParserError msg"
  shows "Impala_read_cache E fs cachename
           = (Inl TypeError, rename fs cachename (gettempdir E, snd cachename))
       \<or> Impala_read_cache E fs cachename = (Inl IndexError, fs)"
proof (cases "find_content E fs cachename (finditer_line_nb msg) None")
  case (Inl e)
  then have "e = IndexError" using find_content_error [OF assms(1)] by blast
  then show ?thesis
    using assms Inl by (simp add: Impala_read_cache_def parse_error_handler_eq)
next
  case (Inr content)
  then show ?thesis
    using assms by (simp add: Impala_read_cache_def parse_error_handler_eq)
qed

theorem parser_error_never_raises_ImpalaError_witness:
  "read_csv ref_ext impala_dtype (fst (snd (scan_lines (readlines ex_malformed) 0 [])))
     = ParserError (''Error tokenizing data. C error: Expected 2 fields in line 5, saw 3'' @ [NL])
   \<and> fst (Impala_read_cache ref_ext [ex_path \<mapsto> ex_malformed] ex_path) = Inl TypeError
   \<and> snd (Impala_read_cache ref_ext [ex_path \<mapsto> ex_malformed] ex_path) ex_path = None
   \<and> snd (Impala_read_cache ref_ext [ex_path \<mapsto> ex_malformed] ex_path) (''/tmp'', snd ex_path)
       = Some ex_malformed"
proof -
  let ?fs = "[ex_path \<mapsto> ex_malformed]"
  let ?sc = "scan_lines (readlines ex_malformed) 0 []"
  have a: "open_cache_file ref_ext ?fs ex_path = Inr ex_malformed"
    by code_simp
  have "snd (snd ?sc) = True" by code_simp
  then have b: "?sc = (fst ?sc, fst (snd ?sc), True)"
    by (metis prod.collapse)
  have c: "fst ?sc > 0" by code_simp
  have d: "read_csv ref_ext impala_dtype (fst (snd ?sc))
     = ParserError (''Error tokenizing data. C error: Expected 2 fields in line 5, saw 3'' @ [NL])"
    by code_simp
  have e: "fst (Impala_read_cache ref_ext ?fs ex_path) \<noteq> Inl IndexError"
    by code_simp
  have f: "gettempdir ref_ext = ''/tmp''" by (simp add: ref_ext_def)
  have g: "rename ?fs ex_path (''/tmp'', snd ex_path) ex_path = None
         \<and> rename ?fs ex_path (''/tmp'', snd ex_path) (''/tmp'', snd ex_path) = Some ex_malformed"
    by (simp add: rename_def ex_path_def)
  from parser_error_never_raises_ImpalaError [OF a b c d] e
  have "Impala_read_cache ref_ext ?fs ex_path
          = (Inl TypeError, rename ?fs ex_path (''/tmp'', snd ex_path))"
    using f by auto
  with d g show ?thesis by simp
qed


subsection \<open>Facts about the cache file and about \_impala\<close>

lemma universal_newlines_id: "CR \<notin> set t \<Longrightarrow> universal_newlines t = t"
  by (induction t rule: universal_newlines.induct) auto

lemma open_cache_file_bytes:
  "fs1 q1 = fs2 q2 \<Longrightarrow> open_cache_file E fs1 q1 = open_cache_file E fs2 q2"
  by (simp add: open_cache_file_def)

lemma ref_gzip_roundtrip: "\<forall>x. gzip_decompress ref_ext (gzip_compress ref_ext x) = Some x"
  by (simp add: ref_ext_def ref_compress_def ref_decompress_def gzip_magic_def)

lemma ref_gzip_magic: "\<forall>x. take 3 (gzip_compress ref_ext x) = gzip_magic"
  by (simp add: ref_ext_def ref_compress_def gzip_magic_def)



lemma apply_ops_other:
  "\<forall>x\<in>set ops. op_path x = p \<Longrightarrow> q \<noteq> p \<Longrightarrow> foldl apply_op fs ops q = fs q"
proof (induction ops arbitrary: fs)
  case Nil
  then show ?case by simp
next
  case (Cons a ops)
  then have "apply_op fs a q = fs q"
    by (cases a) (auto split: option.splits)
  with Cons show ?case by simp
qed

lemma cache_writes_paths:
  "\<forall>x\<in>set (cache_writes E p columns received compress). op_path x = p"
  by (auto simp: cache_writes_def)

lemma crash_after_other:
  assumes "q \<noteq> p"
  shows "crash_after k fs (cache_writes E p columns received compress) q = fs q"
proof -
  have "\<forall>x\<in>set (take k (cache_writes E p columns received compress)). op_path x = p"
    using cache_writes_paths [of E p columns received compress] by (meson in_set_takeD)
  from apply_ops_other [OF this assms] show ?thesis
    by (simp add: crash_after_def apply_ops_def)
qed

lemma crash_after_plain:
  "crash_after (Suc j) fs (cache_writes E p columns received False)
     = fs(p \<mapsto> concat (take j (header_writes columns @ [received])))"
  using foldl_writes [of fs p "[]" "take j (header_writes columns @ [received])"]
  by (simp add: crash_after_def apply_ops_def cache_writes_def take_map [symmetric])

lemma crash_after_gzip:
  "crash_after (Suc j) fs (cache_writes E p columns received True)
     = fs(p \<mapsto> (if j = 0 then [] else gzip_compress E (stored_text columns received)))"
  by (cases j) (simp_all add: crash_after_def apply_ops_def cache_writes_def)

lemma crash_after_visible:
  assumes "0 < k"
  shows "\<exists>c. crash_after k fs (cache_writes E p columns received compress) p = Some c
           \<and> (\<not> compress \<longrightarrow> (\<exists>r. stored_text columns received = c @ r))"
proof -
  obtain j where k: "k = Suc j" using assms by (cases k) auto
  show ?thesis
  proof (cases compress)
    case True
    then show ?thesis by (simp add: k crash_after_gzip)
  next
    case False
    have "stored_text columns received
            = concat (take j (header_writes columns @ [received]))
              @ concat (drop j (header_writes columns @ [received]))"
      unfolding stored_text_def by (metis append_take_drop_id concat_append)
    with False show ?thesis by (auto simp: k crash_after_plain)
  qed
qed

lemma connect_frame:
  "Impala_connect E self w = (out, self2, w2) \<Longrightarrow>
     cache_dir self2 = cache_dir self \<and> files w2 = files w \<and> sent w2 = sent w"
  by (auto simp: Impala_connect_def Let_def split: if_splits option.splits prod.splits)

lemma read_result_outcome: "read_result E s w p \<noteq> (None, x, y)"
  by (simp add: read_result_def split: prod.splits)

lemma read_result_returns:
  assumes "read_result E s w p = (Some (Inr r), s1, w1)"
  shows "s1 = s \<and> w1 = w \<and> Impala_read_cache E (files w) p = (Inr r, files w)
         \<and> (\<exists>b. files w p = Some b)"
proof -
  obtain x fs' where x: "Impala_read_cache E (files w) p = (x, fs')"
    by (cases "Impala_read_cache E (files w) p") auto
  with assms have y: "x = Inr r" "s1 = s" "w1 = w\<lparr>files := fs'\<rparr>"
    by (auto simp: read_result_def)
  from x y(1) have "fs' = files w \<and> (\<exists>b. files w p = Some b)"
    using read_cache_returns by blast
  with x y show ?thesis by simp
qed

lemma impala_hit:
  "files w (cache_dir self, md5_hexdigest E request) \<noteq> None \<Longrightarrow>
   Impala_impala E self w request columns True compress
     = read_result E self w (cache_dir self, md5_hexdigest E request)"
  by (simp add: Impala_impala_def Let_def del: not_None_eq)

lemma impala_returns:
  assumes run: "Impala_impala E self w request columns cached compress = (Some (Inr r), self1, w1)"
  shows "cache_dir self1 = cache_dir self
       \<and> Impala_read_cache E (files w1) (cache_dir self, md5_hexdigest E request) = (Inr r, files w1)
       \<and> (\<exists>b. files w1 (cache_dir self, md5_hexdigest E request) = Some b)
       \<and> (files w (cache_dir self, md5_hexdigest E request) = None \<longrightarrow>
            sent w1 = sent w @ [map (\<lambda>c. if c = NL then SP else c) request @ '';'' @ [NL]])"
proof -
  define p where "p = (cache_dir self, md5_hexdigest E request)"
  define w0 where "w0 = (if files w p \<noteq> None \<and> \<not> cached
                          then w\<lparr>files := unlink (files w) p\<rparr> else w)"
  have s0: "sent w0 = sent w" by (simp add: w0_def)
  note unf0 = Impala_impala_def [of E self w request columns cached compress,
                                 unfolded Let_def, folded p_def, folded w0_def]
  show ?thesis
  proof (cases "files w0 p = None")
    case False
    then have "Impala_impala E self w request columns cached compress = read_result E self w0 p"
      by (simp add: unf0 del: not_None_eq)
    with run have "read_result E self w0 p = (Some (Inr r), self1, w1)" by simp
    from read_result_returns [OF this] False
    have "self1 = self" "w1 = w0" "Impala_read_cache E (files w0) p = (Inr r, files w0)"
         "\<exists>b. files w0 p = Some b" by auto
    moreover have "files w p \<noteq> None" using False by (auto simp: w0_def split: if_splits)
    ultimately show ?thesis by (auto simp: p_def)
  next
    case True
    obtain out self2 w2 where c:
      "(if \<not> connected self then Impala_connect E self w0 else (Some (Inr ()), self, w0))
         = (out, self2, w2)"
      by (cases "if \<not> connected self then Impala_connect E self w0 else (Some (Inr ()), self, w0)")
         auto
    then have fr: "cache_dir self2 = cache_dir self" "files w2 = files w0" "sent w2 = sent w0"
      using connect_frame [of E self w0 out self2 w2] by (auto split: if_splits)
    define cmd where "cmd = map (\<lambda>c. if c = NL then SP else c) request @ '';'' @ [NL]"
    define w3 where "w3 = w2\<lparr>sent := sent w2 @ [cmd]\<rparr>"
    define fin where "fin received rest =
        read_result E self2
          (w3\<lparr>channel := rest,
              files := apply_ops (files w3) (cache_writes E p columns received compress)\<rparr>) p"
      for received rest
    have unf: "Impala_impala E self w request columns cached compress =
        (case out of
           None \<Rightarrow> (None, self2, w2)
         | Some (Inl e) \<Rightarrow> (Some (Inl e), self2, w2)
         | Some (Inr u) \<Rightarrow>
             (case recv_until_prompt (channel w3) [] of
                None \<Rightarrow> (None, self2, w3\<lparr>channel := []\<rparr>)
              | Some (received, rest) \<Rightarrow> fin received rest))"
      using True c
      by (simp add: unf0 cmd_def w3_def fin_def split: option.split sum.split)
    from run unf obtain received rest where "fin received rest = (Some (Inr r), self1, w1)"
      by (auto split: option.splits sum.splits)
    then have
      rr: "read_result E self2
             (w3\<lparr>channel := rest,
                 files := apply_ops (files w3) (cache_writes E p columns received compress)\<rparr>) p
           = (Some (Inr r), self1, w1)"
      by (simp add: fin_def)
    from read_result_returns [OF rr]
    have "self1 = self2"
      "w1 = w3\<lparr>channel := rest,
                files := apply_ops (files w3) (cache_writes E p columns received compress)\<rparr>"
      "Impala_read_cache E (files w1) p = (Inr r, files w1)" "\<exists>b. files w1 p = Some b"
      by auto
    then show ?thesis
      using fr s0 by (simp add: p_def [symmetric] w3_def cmd_def)
  qed
qed

lemma impala_blocked:
  assumes run: "Impala_impala E self w request columns cached compress = (None, self1, w1)"
  shows "files w1 (cache_dir self, md5_hexdigest E request) = None"
proof -
  define p where "p = (cache_dir self, md5_hexdigest E request)"
  define w0 where "w0 = (if files w p \<noteq> None \<and> \<not> cached
                          then w\<lparr>files := unlink (files w) p\<rparr> else w)"
  note unf0 = Impala_impala_def [of E self w request columns cached compress,
                                 unfolded Let_def, folded p_def, folded w0_def]
  show ?thesis
  proof (cases "files w0 p = None")
    case False
    then have "Impala_impala E self w request columns cached compress = read_result E self w0 p"
      by (simp add: unf0 del: not_None_eq)
    with run read_result_outcome [of E self w0 p] show ?thesis by simp
  next
    case True
    obtain out self2 w2 where c:
      "(if \<not> connected self then Impala_connect E self w0 else (Some (Inr ()), self, w0))
         = (out, self2, w2)"
      by (cases "if \<not> connected self then Impala_connect E self w0 else (Some (Inr ()), self, w0)")
         auto
    then have fr: "files w2 = files w0"
      using connect_frame [of E self w0 out self2 w2] by (auto split: if_splits)
    define cmd where "cmd = map (\<lambda>c. if c = NL then SP else c) request @ '';'' @ [NL]"
    define w3 where "w3 = w2\<lparr>sent := sent w2 @ [cmd]\<rparr>"
    define fin where "fin received rest =
        read_result E self2
          (w3\<lparr>channel := rest,
              files := apply_ops (files w3) (cache_writes E p columns received compress)\<rparr>) p"
      for received rest
    have unf: "Impala_impala E self w request columns cached compress =
        (case out of
           None \<Rightarrow> (None, self2, w2)
         | Some (Inl e) \<Rightarrow> (Some (Inl e), self2, w2)
         | Some (Inr u) \<Rightarrow>
             (case recv_until_prompt (channel w3) [] of
                None \<Rightarrow> (None, self2, w3\<lparr>channel := []\<rparr>)
              | Some (received, rest) \<Rightarrow> fin received rest))"
      using True c
      by (simp add: unf0 cmd_def w3_def fin_def split: option.split sum.split)
    have fo: "fin a b \<noteq> (None, x, y)" for a b x y
      by (simp add: fin_def read_result_outcome)
    have "w1 = w2 \<or> w1 = w3\<lparr>channel := []\<rparr>"
      using run unf fo by (auto split: option.splits sum.splits)
    then have "files w1 = files w0"
      using fr by (auto simp: w3_def)
    with True show ?thesis by (simp add: p_def)
  qed
qed


subsection \<open>Raw text\<close>

lemma NL_not_CR: "NL \<noteq> CR"
  by (simp add: NL_def CR_def)

lemma universal_newlines_NL: "universal_newlines (NL # T) = NL # universal_newlines T"
  using NL_not_CR by (cases T) simp_all

lemma universal_newlines_header:
  "\<exists>X. universal_newlines (h @ NL # T) = X @ NL # universal_newlines T"
proof (induction h rule: universal_newlines.induct)
  case 1
  show ?case by (simp add: universal_newlines_NL)
next
  case (2 c)
  show ?case
  proof (cases "c = CR")
    case True
    then show ?thesis by simp
  next
    case False
    then have "universal_newlines ([c] @ NL # T) = [c] @ NL # universal_newlines T"
      by (simp add: universal_newlines_NL)
    then show ?thesis by blast
  qed
next
  case (3 c d cs)
  show ?case
  proof (cases "c = CR")
    case False
    with "3.IH"(3) obtain X where "universal_newlines ((d # cs) @ NL # T) = X @ NL # universal_newlines T"
      by blast
    with False have "universal_newlines ((c # d # cs) @ NL # T) = (c # X) @ NL # universal_newlines T"
      by simp
    then show ?thesis by blast
  next
    case True
    show ?thesis
    proof (cases "d = NL")
      case True
      with \<open>c = CR\<close> "3.IH"(1) obtain X where
        "universal_newlines (cs @ NL # T) = X @ NL # universal_newlines T" by blast
      with True \<open>c = CR\<close>
      have "universal_newlines ((c # d # cs) @ NL # T) = (NL # X) @ NL # universal_newlines T"
        by simp
      then show ?thesis by blast
    next
      case False
      with \<open>c = CR\<close> "3.IH"(2) obtain X where
        "universal_newlines ((d # cs) @ NL # T) = X @ NL # universal_newlines T" by blast
      with False \<open>c = CR\<close>
      have "universal_newlines ((c # d # cs) @ NL # T) = (NL # X) @ NL # universal_newlines T"
        by simp
      then show ?thesis by blast
    qed
  qed
qed

lemma readlines_nonempty: "t \<noteq> [] \<Longrightarrow> readlines t \<noteq> []"
  by (cases t) (auto split: list.splits)

lemma readlines_append_NL:
  "readlines (X @ NL # Y) = readlines (X @ [NL]) @ readlines Y"
proof (induction X)
  case Nil
  show ?case by simp
next
  case (Cons c X)
  have "readlines (X @ [NL]) \<noteq> []" by (rule readlines_nonempty) simp
  then obtain l ls where "readlines (X @ [NL]) = l # ls" by (cases "readlines (X @ [NL])") auto
  with Cons show ?case by simp
qed


lemma readlines_transcript_lines:
  "set (readlines (universal_newlines received))
     \<subseteq> set (readlines (universal_newlines (stored_text columns received)))"
proof (cases columns)
  case None
  then show ?thesis by (simp add: stored_text_def header_writes_def)
next
  case (Some c)
  obtain X where
    x: "universal_newlines (sub_comma_space c @ NL # received) = X @ NL # universal_newlines received"
    using universal_newlines_header by blast
  have st: "stored_text columns received = sub_comma_space c @ NL # received"
    using Some by (simp add: stored_text_def header_writes_def)
  have "readlines (universal_newlines (stored_text columns received))
          = readlines (X @ [NL]) @ readlines (universal_newlines received)"
    unfolding st x by (rule readlines_append_NL)
  then show ?thesis by simp
qed

lemma open_written_cache:
  assumes "\<forall>x. gzip_decompress E (gzip_compress E x) = Some x"
    and "\<forall>x. take 3 (gzip_compress E x) = gzip_magic"
    and "compress \<or> take 3 (stored_text columns received) \<noteq> gzip_magic"
  shows "open_cache_file E (apply_ops fs (cache_writes E p columns received compress)) p
           = Inr (universal_newlines (stored_text columns received))"
proof (cases compress)
  case True
  then show ?thesis
    using assms(1) assms(2) by (simp add: cache_writes_gzip open_cache_file_def)
next
  case False
  then show ?thesis
    using assms(3) by (simp add: cache_writes_plain open_cache_file_def)
qed

lemma read_cache_box_comma:
  assumes "open_cache_file E fs cachename = Inr body"
    and "\<exists>line\<in>set (readlines body). box_drawn line \<and> COMMA \<in> set line"
  shows "Impala_read_cache E fs cachename = (Inr (RawText body), fs)"
proof -
  obtain c' s' where "scan_lines (readlines body) 0 [] = (c', s', False)"
    using scan_lines_break [OF assms(2), of 0 "[]"]
    by (cases "scan_lines (readlines body) 0 []") auto
  then show ?thesis
    using assms(1) by (simp add: Impala_read_cache_def concat_readlines)
qed

text \<open>
  Claim C6, as amended. Let the cache file be the one that \<^verbatim>\<open>_impala\<close> writes for a
  transcript, compressed or not, with or without a header. When some line of the
  transcript, as read in text mode, is box-drawn (\<^verbatim>\<open>|...|\<close>) and holds a comma,
  \<^verbatim>\<open>_read_cache\<close> gives up the table and returns a raw text: the whole text of the file,
  that is the header line, when columns were given, followed by the transcript, with
  every \<^verbatim>\<open>"\r\n"\<close> and lone \<^verbatim>\<open>"\r"\<close> read as \<^verbatim>\<open>"\n"\<close>. It is the transcript itself when no
  columns are given and the transcript holds no carriage return.
\<close>

theorem box_comma_returns_stored_text:
  assumes "\<forall>x. gzip_decompress E (gzip_compress E x) = Some x"
    and "\<forall>x. take 3 (gzip_compress E x) = gzip_magic"
    and "compress \<or> take 3 (stored_text columns received) \<noteq> gzip_magic"
    and "\<exists>line\<in>set (readlines (universal_newlines received)). box_drawn line \<and> COMMA \<in> set line"
  shows "fst (Impala_read_cache E (apply_ops fs (cache_writes E cachename columns received compress))
                cachename)
           = Inr (RawText (universal_newlines (stored_text columns received)))
       \<and> stored_text columns received
           = (case columns of None \<Rightarrow> received | Some c \<Rightarrow> sub_comma_space c @ [NL] @ received)
       \<and> (columns = None \<and> CR \<notin> set received \<longrightarrow>
            fst (Impala_read_cache E
                   (apply_ops fs (cache_writes E cachename columns received compress)) cachename)
              = Inr (RawText received))"
proof -
  have o: "open_cache_file E (apply_ops fs (cache_writes E cachename columns received compress))
             cachename = Inr (universal_newlines (stored_text columns received))"
    using assms(1) assms(2) assms(3) by (rule open_written_cache)
  have l: "\<exists>line\<in>set (readlines (universal_newlines (stored_text columns received))).
             box_drawn line \<and> COMMA \<in> set line"
    using assms(4) readlines_transcript_lines [of received columns] by blast
  have s: "stored_text columns received
           = (case columns of None \<Rightarrow> received | Some c \<Rightarrow> sub_comma_space c @ [NL] @ received)"
    by (simp add: stored_text_def header_writes_def split: option.splits)
  have r: "fst (Impala_read_cache E
                  (apply_ops fs (cache_writes E cachename columns received compress)) cachename)
             = Inr (RawText (universal_newlines (stored_text columns received)))"
    using read_cache_box_comma [OF o l] by simp
  have t: "columns = None \<and> CR \<notin> set received \<longrightarrow>
            fst (Impala_read_cache E
                   (apply_ops fs (cache_writes E cachename columns received compress)) cachename)
              = Inr (RawText received)"
  proof
    assume c: "columns = None \<and> CR \<notin> set received"
    then have "stored_text columns received = received" using s by simp
    moreover have "universal_newlines received = received"
      using c by (simp add: universal_newlines_id)
    ultimately show "fst (Impala_read_cache E
                   (apply_ops fs (cache_writes E cachename columns received compress)) cachename)
              = Inr (RawText received)"
      using r by simp
  qed
  show ?thesis
    by (intro conjI) (rule r s t)+
qed

theorem box_comma_returns_stored_text_witness:
  "fst (Impala_read_cache ref_ext
         (apply_ops Map.empty (cache_writes ref_ext ex_path (Some ''name, type'') ex_pty_describe True))
         ex_path)
     = Inr (RawText (''name'' @ [TAB] @ ''type'' @ [NL]
                     @ ''| name | type |'' @ [NL] @ ''| a | b,c |'' @ [NL] @ ''[hadoop-1:21000] > ''))"
proof -
  have a: "True \<or> take 3 (stored_text (Some ''name, type'') ex_pty_describe) \<noteq> gzip_magic" by simp
  have "list_ex (\<lambda>line. box_drawn line \<and> COMMA \<in> set line)
          (readlines (universal_newlines ex_pty_describe))"
    by code_simp
  then have b: "\<exists>line\<in>set (readlines (universal_newlines ex_pty_describe)).
                  box_drawn line \<and> COMMA \<in> set line"
    by (simp add: list_ex_iff)
  have c: "universal_newlines (stored_text (Some ''name, type'') ex_pty_describe)
             = ''name'' @ [TAB] @ ''type'' @ [NL]
               @ ''| name | type |'' @ [NL] @ ''| a | b,c |'' @ [NL] @ ''[hadoop-1:21000] > ''"
    by code_simp
  from box_comma_returns_stored_text [OF ref_gzip_roundtrip ref_gzip_magic a b,
         of Map.empty ex_path, THEN conjunct1] c
  show ?thesis by simp
qed

text \<open>
  The claim as it was stated fails: the text returned is not the transcript as it was
  received. A call of \<^verbatim>\<open>_impala\<close> with columns returns the header line before the
  transcript, and the line ends \<^verbatim>\<open>"\r\n"\<close> of the transcript come back as \<^verbatim>\<open>"\n"\<close>, with or
  without a header.
\<close>

theorem rawtext_is_not_the_transcript_counterexample:
  "fst (Impala_impala ref_ext ex_self
          \<lparr>files = Map.empty, channel = [''[hadoop-1:21000] > '', ex_pty_describe],
           sent = [], ssh_connects = []\<rparr>
          ''describe t'' (Some ''name, type'') True False)
     = Some (Inr (RawText (''name'' @ [TAB] @ ''type'' @ [NL]
                     @ ''| name | type |'' @ [NL] @ ''| a | b,c |'' @ [NL] @ ''[hadoop-1:21000] > '')))
   \<and> fst (Impala_impala ref_ext ex_self
          \<lparr>files = Map.empty, channel = [''[hadoop-1:21000] > '', ex_pty_describe],
           sent = [], ssh_connects = []\<rparr>
          ''describe t'' (Some ''name, type'') True False)
     \<noteq> Some (Inr (RawText ex_pty_describe))
   \<and> fst (Impala_read_cache ref_ext [ex_path \<mapsto> ex_pty_describe] ex_path)
     = Inr (RawText (''| name | type |'' @ [NL] @ ''| a | b,c |'' @ [NL] @ ''[hadoop-1:21000] > ''))
   \<and> fst (Impala_read_cache ref_ext [ex_path \<mapsto> ex_pty_describe] ex_path)
     \<noteq> Inr (RawText ex_pty_describe)"
  by code_simp


subsection \<open>The identifier columns\<close>















subsection \<open>Writing and reading the cache\<close>

text \<open>
  Claim C5, as amended. Let gzip be a compressor whose output starts with the three magic
  bytes and decompresses to its input. After the writes of \<^verbatim>\<open>_impala\<close>, compressed or
  not (if not, the text written must not start with the magic bytes, which no UTF-8 text
  does), \<^verbatim>\<open>open_cache_file\<close> yields the text written, with \<^verbatim>\<open>"\r\n"\<close> and \<^verbatim>\<open>"\r"\<close> read as
  \<^verbatim>\<open>"\n"\<close>. The text written is the header line (the columns with \<^verbatim>\<open>", "\<close> turned into a
  tab, and a newline) followed by the transcript; it is the transcript alone when no
  columns are given, and then a transcript without carriage return is read back exactly.
  What is read depends on the bytes of the file only, not on its name.
\<close>

theorem write_then_read:
  assumes "\<forall>x. gzip_decompress E (gzip_compress E x) = Some x"
    and "\<forall>x. take 3 (gzip_compress E x) = gzip_magic"
    and "compress \<or> take 3 (stored_text columns received) \<noteq> gzip_magic"
  shows "open_cache_file E (apply_ops fs (cache_writes E p columns received compress)) p
           = Inr (universal_newlines (stored_text columns received))
       \<and> stored_text columns received
           = (case columns of None \<Rightarrow> received | Some c \<Rightarrow> sub_comma_space c @ [NL] @ received)
       \<and> (columns = None \<and> CR \<notin> set received \<longrightarrow>
            open_cache_file E (apply_ops fs (cache_writes E p columns received compress)) p
              = Inr received)
       \<and> (\<forall>fs1 fs2 q1 q2. fs1 q1 = fs2 q2 \<longrightarrow> open_cache_file E fs1 q1 = open_cache_file E fs2 q2)"
proof -
  have r: "open_cache_file E (apply_ops fs (cache_writes E p columns received compress)) p
           = Inr (universal_newlines (stored_text columns received))"
  proof (cases compress)
    case True
    then show ?thesis
      using assms(1) assms(2) by (simp add: cache_writes_gzip open_cache_file_def)
  next
    case False
    then show ?thesis
      using assms(3) by (simp add: cache_writes_plain open_cache_file_def)
  qed
  have s: "stored_text columns received
           = (case columns of None \<Rightarrow> received | Some c \<Rightarrow> sub_comma_space c @ [NL] @ received)"
    by (simp add: stored_text_def header_writes_def split: option.splits)
  have "open_cache_file E (apply_ops fs (cache_writes E p columns received compress)) p
              = Inr received" if "columns = None" and "CR \<notin> set received"
    using r s that by (simp add: universal_newlines_id)
  with r s open_cache_file_bytes show ?thesis by blast
qed


theorem write_then_read_witness:
  "open_cache_file ref_ext
     (apply_ops Map.empty (cache_writes ref_ext ex_path None ex_disk_full True)) ex_path
     = Inr ex_disk_full
   \<and> open_cache_file ref_ext
     (apply_ops Map.empty (cache_writes ref_ext ex_path None ex_disk_full False)) ex_path
     = Inr ex_disk_full"
proof -
  have "list_all (\<lambda>c. c \<noteq> CR) ex_disk_full" by code_simp
  then have a: "None = (None :: string option) \<and> CR \<notin> set ex_disk_full"
    by (auto simp: list_all_iff)
  have "take 3 (stored_text None ex_disk_full) \<noteq> gzip_magic" by code_simp
  then have c: "False \<or> take 3 (stored_text None ex_disk_full) \<noteq> gzip_magic" by simp
  have d: "True \<or> take 3 (stored_text None ex_disk_full) \<noteq> gzip_magic" by simp
  note zipped = write_then_read [OF ref_gzip_roundtrip ref_gzip_magic d, of Map.empty ex_path]
  note plain = write_then_read [OF ref_gzip_roundtrip ref_gzip_magic c, of Map.empty ex_path]
  have "open_cache_file ref_ext
     (apply_ops Map.empty (cache_writes ref_ext ex_path None ex_disk_full True)) ex_path
     = Inr ex_disk_full"
    using zipped [THEN conjunct2, THEN conjunct2, THEN conjunct1] a by blast
  moreover have "open_cache_file ref_ext
     (apply_ops Map.empty (cache_writes ref_ext ex_path None ex_disk_full False)) ex_path
     = Inr ex_disk_full"
    using plain [THEN conjunct2, THEN conjunct2, THEN conjunct1] a by blast
  ultimately show ?thesis by blast
qed


text \<open>
  The claim as it was stated fails in two ways: with a header, the text read starts with
  the header line; and the line ends \<^verbatim>\<open>"\r\n"\<close> of a transcript are read as \<^verbatim>\<open>"\n"\<close>.
\<close>

theorem write_then_read_counterexample:
  "open_cache_file ref_ext
     (apply_ops Map.empty (cache_writes ref_ext ex_path (Some ''time, icao24'') ''x'' False)) ex_path
     = Inr (''time'' @ [TAB] @ ''icao24'' @ [NL] @ ''x'')
   \<and> open_cache_file ref_ext
     (apply_ops Map.empty (cache_writes ref_ext ex_path (Some ''time, icao24'') ''x'' False)) ex_path
     \<noteq> Inr ''x''
   \<and> open_cache_file ref_ext
     (apply_ops Map.empty (cache_writes ref_ext ex_path None (''a'' @ [CR, NL] @ ''b'') True)) ex_path
     = Inr (''a'' @ [NL] @ ''b'')
   \<and> open_cache_file ref_ext
     (apply_ops Map.empty (cache_writes ref_ext ex_path None (''a'' @ [CR, NL] @ ''b'') True)) ex_path
     \<noteq> Inr (''a'' @ [CR, NL] @ ''b'')"
  by code_simp




text \<open>
  Claim C1, as amended. \<^verbatim>\<open>_impala\<close> writes the cache file in place, under its own name:
  the writes touch no other path, so there is no temporary file and no publishing step.
  Before the first operation the file system is untouched; right after the first one
  (the opening) the entry is there, empty; after any number of operations the entry is
  there, and for a plain file it holds a beginning of the text to be stored; after all of
  them it holds the whole text (compressed if asked). The writes start only when the
  transcript has been received up to the prompt: a call that never returns leaves no
  entry under its key.
\<close>

theorem cache_is_written_in_place:
  "crash_after 0 fs (cache_writes E p columns received compress) = fs
   \<and> crash_after 1 fs (cache_writes E p columns received compress) p = Some []
   \<and> (\<forall>k q. q \<noteq> p \<longrightarrow> crash_after k fs (cache_writes E p columns received compress) q = fs q)
   \<and> (\<forall>k. 0 < k \<longrightarrow>
         (\<exists>c. crash_after k fs (cache_writes E p columns received compress) p = Some c
            \<and> (\<not> compress \<longrightarrow> (\<exists>r. stored_text columns received = c @ r))))
   \<and> apply_ops fs (cache_writes E p columns received compress) p
       = Some (if compress then gzip_compress E (stored_text columns received)
               else stored_text columns received)
   \<and> (\<forall>self w request cached self1 w1.
         Impala_impala E self w request columns cached compress = (None, self1, w1)
         \<longrightarrow> files w1 (cache_dir self, md5_hexdigest E request) = None)"
proof -
  have a: "crash_after 0 fs (cache_writes E p columns received compress) = fs"
    by (simp add: crash_after_def apply_ops_def)
  have b: "crash_after 1 fs (cache_writes E p columns received compress) p = Some []"
    by (simp add: crash_after_def apply_ops_def cache_writes_def)
  have e: "apply_ops fs (cache_writes E p columns received compress) p
       = Some (if compress then gzip_compress E (stored_text columns received)
               else stored_text columns received)"
    by (cases compress) (simp_all add: cache_writes_plain cache_writes_gzip)
  have c: "\<forall>k q. q \<noteq> p \<longrightarrow>
             crash_after k fs (cache_writes E p columns received compress) q = fs q"
    by (intro allI impI) (rule crash_after_other)
  have d: "\<forall>k. 0 < k \<longrightarrow>
         (\<exists>c. crash_after k fs (cache_writes E p columns received compress) p = Some c
            \<and> (\<not> compress \<longrightarrow> (\<exists>r. stored_text columns received = c @ r)))"
    by (intro allI impI) (rule crash_after_visible)
  have f: "\<forall>self w request cached self1 w1.
         Impala_impala E self w request columns cached compress = (None, self1, w1)
         \<longrightarrow> files w1 (cache_dir self, md5_hexdigest E request) = None"
    by (intro allI impI) (rule impala_blocked)
  show ?thesis
    by (intro conjI) (rule a b c d e f)+
qed

theorem cache_is_written_in_place_witness:
  "crash_after 1 Map.empty (cache_writes ref_ext ex_path (Some ''time, icao24'') ex_rows False) ex_path
     = Some []
   \<and> apply_ops Map.empty (cache_writes ref_ext ex_path (Some ''time, icao24'') ex_rows False) ex_path
     = Some (''time'' @ [TAB] @ ''icao24'' @ [NL] @ ex_rows)"
proof -
  note t = cache_is_written_in_place
             [of Map.empty ref_ext ex_path "Some ''time, icao24''" ex_rows False]
  have s: "stored_text (Some ''time, icao24'') ex_rows = ''time'' @ [TAB] @ ''icao24'' @ [NL] @ ex_rows"
    by (simp add: stored_text_def header_writes_def COMMA_def SP_def)
  from t [THEN conjunct2, THEN conjunct1]
       t [THEN conjunct2, THEN conjunct2, THEN conjunct2, THEN conjunct2, THEN conjunct1] s
  show ?thesis by simp
qed


text \<open>
  The claim as it was stated fails: a crash right after the file has been opened leaves
  an empty entry under the key, not the text that was to be stored, and the next call
  reads that entry as a valid answer without rows.
\<close>

theorem crash_leaves_truncated_entry_counterexample:
  "crash_after 1 Map.empty (cache_writes ref_ext ex_path (Some ''time, icao24'') ex_rows False) ex_path
     = Some []
   \<and> apply_ops Map.empty (cache_writes ref_ext ex_path (Some ''time, icao24'') ex_rows False) ex_path
     = Some (''time'' @ [TAB] @ ''icao24'' @ [NL] @ ex_rows)
   \<and> fst (Impala_read_cache ref_ext
        (crash_after 1 Map.empty (cache_writes ref_ext ex_path (Some ''time, icao24'') ex_rows False))
        ex_path) = Inr PyNone"
  by code_simp

subsection \<open>Two runs of the same query\<close>

text \<open>
  Claim C4, as amended. When a call of \<^verbatim>\<open>_impala\<close> with caching enabled returns (a table,
  a raw text or None), the same call made again returns the same result and changes
  nothing: it sends no command. If the key was not in the cache before the first call,
  that call has sent exactly one command. So the two calls make one remote execution.
\<close>

theorem second_run_is_served_from_cache:
  assumes "Impala_impala E self w request columns True compress = (Some (Inr r), self1, w1)"
  shows "second_run E self w request columns True compress = (Some (Inr r), self1, w1)
       \<and> (files w (cache_dir self, md5_hexdigest E request) = None \<longrightarrow>
            sent w1 = sent w @ [map (\<lambda>c. if c = NL then SP else c) request @ '';'' @ [NL]])"
proof -
  note f = impala_returns [OF assms]
  have cd: "cache_dir self1 = cache_dir self" using f by simp
  have ne: "files w1 (cache_dir self1, md5_hexdigest E request) \<noteq> None" using f cd by auto
  have "Impala_impala E self1 w1 request columns True compress
          = read_result E self1 w1 (cache_dir self1, md5_hexdigest E request)"
    using ne by (rule impala_hit)
  also have "\<dots> = (Some (Inr r), self1, w1)"
    using f cd by (simp add: read_result_def)
  finally have "second_run E self w request columns True compress = (Some (Inr r), self1, w1)"
    using assms by (simp add: second_run_def)
  then show ?thesis using f by simp
qed

theorem second_run_is_served_from_cache_witness:
  "fst (Impala_impala ref_ext ex_self ex_world_rows ex_request (Some ''time, icao24'') True False)
     = Some (Inr (Table ex_table))
   \<and> fst (second_run ref_ext ex_self ex_world_rows ex_request (Some ''time, icao24'') True False)
     = Some (Inr (Table ex_table))
   \<and> sent (snd (snd (second_run ref_ext ex_self ex_world_rows ex_request
                         (Some ''time, icao24'') True False)))
     = [ex_request @ '';'' @ [NL]]"
proof -
  let ?R = "Impala_impala ref_ext ex_self ex_world_rows ex_request (Some ''time, icao24'') True False"
  have a: "fst ?R = Some (Inr (Table ex_table))" by code_simp
  then have b: "?R = (Some (Inr (Table ex_table)), fst (snd ?R), snd (snd ?R))"
    by (metis prod.collapse)
  have c: "sent (snd (snd ?R)) = [ex_request @ '';'' @ [NL]]" by code_simp
  from second_run_is_served_from_cache [OF b, THEN conjunct1] a c show ?thesis by simp
qed

text \<open>
  The claim as it was stated fails. Here the cache is empty and the server answers the
  query with an error banner, twice: \<^verbatim>\<open>_read_cache\<close> unlinks the entry that the first call
  wrote, both calls raise, and the command has been sent twice.
\<close>

theorem remote_error_runs_twice_counterexample:
  "fst (Impala_impala ref_ext ex_self ex_world_error ex_request (Some ''time, icao24'') True False)
     = Some (Inl (ImpalaError (''time'' @ [TAB] @ ''icao24'' @ [NL] @ ''ERROR: disk full'' @ [NL])))
   \<and> fst (second_run ref_ext ex_self ex_world_error ex_request (Some ''time, icao24'') True False)
     = Some (Inl (ImpalaError (''time'' @ [TAB] @ ''icao24'' @ [NL] @ ''ERROR: disk full'' @ [NL])))
   \<and> sent (snd (snd (second_run ref_ext ex_self ex_world_error ex_request
                         (Some ''time, icao24'') True False)))
     = [ex_request @ '';'' @ [NL], ex_request @ '';'' @ [NL]]"
  by code_simp

subsection \<open>Connecting without credentials\<close>

lemma connect_empty_credentials:
  "username self = Some [] \<or> password self = Some [] \<Longrightarrow>
   Impala_connect E self w
     = (Some (Inl (RuntimeError ''This method requires authentication.'')), self, w)"
  by (simp add: Impala_connect_def)


text \<open>
  Claim C7. The guard of \<^verbatim>\<open>_connect\<close> compares the user name and the password with the
  empty text only. With a user name or a password that is None (and none of them
  empty), \<^verbatim>\<open>_connect\<close> does not raise its \<^verbatim>\<open>RuntimeError\<close>: it goes on to
  \<^verbatim>\<open>client.connect\<close>, with these credentials.
\<close>

theorem connect_with_unset_credentials_reaches_transport:
  assumes "username self = None \<or> password self = None"
    and "username self \<noteq> Some []" and "password self \<noteq> Some []"
  shows "ssh_connects (snd (snd (Impala_connect E self w)))
           = ssh_connects w @
             [(username self, password self,
               if proxy_command self \<noteq> None \<and> proxy_command self \<noteq> Some []
               then proxy_command self else None)]
       \<and> (\<forall>m. fst (Impala_connect E self w) \<noteq> Some (Inl (RuntimeError m)))"
  using assms(2) assms(3)
  by (simp add: Impala_connect_def Let_def split: option.splits prod.splits)

theorem connect_with_unset_credentials_reaches_transport_witness:
  "ssh_connects (snd (snd (Impala_connect ref_ext (Impala_init None None None ''cache'')
                             ex_world_rows)))
     = [(None, None, None)]
   \<and> fst (Impala_connect ref_ext (Impala_init None None None ''cache'') ex_world_rows)
     = Some (Inl SSHException)"
proof -
  let ?self = "Impala_init None None None ''cache''"
  have u: "username ?self = None \<or> password ?self = None" by (simp add: Impala_init_def)
  have n1: "username ?self \<noteq> Some []" by (simp add: Impala_init_def)
  have n2: "password ?self \<noteq> Some []" by (simp add: Impala_init_def)
  have f: "fst (Impala_connect ref_ext ?self ex_world_rows) = Some (Inl SSHException)"
    by code_simp
  have g: "username ?self = None" "password ?self = None" "proxy_command ?self = None"
          "ssh_connects ex_world_rows = []"
    by (simp_all add: Impala_init_def ex_world_rows_def)
  from connect_with_unset_credentials_reaches_transport [OF u n1 n2, of ref_ext ex_world_rows,
         THEN conjunct1] f g
  show ?thesis by simp
qed

subsection \<open>The default stop bound\<close>

lemma time_bounds_default:
  assumes "to_datetime start = Inr start_ts" and "start_ts + Timedelta_1d \<le> Timestamp_max"
  shows "time_bounds to_datetime start None = Inr (start_ts, start_ts + Timedelta_1d)"
  using assms by (simp add: time_bounds_def timestamp_add_def)

lemma rawdata_pieces_default:
  assumes "time_bounds to_datetime start None = Inr b" and "set tables \<subseteq> set raw_tables"
  shows "rawdata_pieces_bounds to_datetime tables start None = Inr (map (\<lambda>t. b) tables)"
  using assms(2)
  by (induction tables) (simp_all add: rawdata_table_bounds_def assms(1))

text \<open>
  Claim C9. In \<^verbatim>\<open>request\<close>, \<^verbatim>\<open>flightlist\<close>, \<^verbatim>\<open>history\<close> and \<^verbatim>\<open>rawdata\<close>, when \<^verbatim>\<open>stop\<close> is
  None and the start parses to a timestamp \<open>start_ts\<close> at least one day below the largest
  timestamp, the bounds the method goes on with are \<open>start_ts\<close> and exactly \<open>start_ts\<close>
  plus one day. For \<^verbatim>\<open>rawdata\<close> this holds for every single-table call it makes: the
  seven calls of the default (no table name), the one call for a name of \<^verbatim>\<open>_raw_tables\<close>,
  and the calls for a list of such names.
\<close>

theorem stop_defaults_to_start_plus_one_day:
  assumes "to_datetime start = Inr start_ts"
    and "start_ts + Timedelta_1d \<le> Timestamp_max"
  shows "request_bounds to_datetime start None = Inr (start_ts, start_ts + 86400000000000)
       \<and> flightlist_bounds to_datetime start None = Inr (start_ts, start_ts + 86400000000000)
       \<and> history_bounds to_datetime start None = Inr (start_ts, start_ts + 86400000000000)
       \<and> rawdata_bounds to_datetime TableNone start None
            = Inr (map (\<lambda>t. (start_ts, start_ts + 86400000000000)) raw_tables)
       \<and> (\<forall>table. table \<in> set raw_tables \<longrightarrow>
              rawdata_bounds to_datetime (TableStr table) start None
                = Inr [(start_ts, start_ts + 86400000000000)])
       \<and> (\<forall>tables. set tables \<subseteq> set raw_tables \<longrightarrow>
              rawdata_bounds to_datetime (TableList tables) start None
                = Inr (map (\<lambda>t. (start_ts, start_ts + 86400000000000)) tables))"
proof -
  have d: "Timedelta_1d = 86400000000000" by (simp add: Timedelta_1d_def)
  have b: "time_bounds to_datetime start None = Inr (start_ts, start_ts + 86400000000000)"
    using time_bounds_default [of to_datetime start start_ts] assms(1) assms(2) d by simp
  have three: "request_bounds to_datetime start None = Inr (start_ts, start_ts + 86400000000000)"
    "flightlist_bounds to_datetime start None = Inr (start_ts, start_ts + 86400000000000)"
    "history_bounds to_datetime start None = Inr (start_ts, start_ts + 86400000000000)"
    using b by (simp_all add: request_bounds_def flightlist_bounds_def history_bounds_def)
  have none: "rawdata_bounds to_datetime TableNone start None
          = Inr (map (\<lambda>t. (start_ts, start_ts + 86400000000000)) raw_tables)"
    using rawdata_pieces_default [OF b, of raw_tables] by (simp add: rawdata_bounds_def)
  have one: "\<forall>table. table \<in> set raw_tables \<longrightarrow>
              rawdata_bounds to_datetime (TableStr table) start None
                = Inr [(start_ts, start_ts + 86400000000000)]"
    using b by (simp add: rawdata_bounds_def rawdata_table_bounds_def)
  have several: "\<forall>tables. set tables \<subseteq> set raw_tables \<longrightarrow>
              rawdata_bounds to_datetime (TableList tables) start None
                = Inr (map (\<lambda>t. (start_ts, start_ts + 86400000000000)) tables)"
    using rawdata_pieces_default [OF b] by (simp add: rawdata_bounds_def)
  show ?thesis
    by (intro conjI) (rule three none one several)+
qed

theorem stop_defaults_to_start_plus_one_day_witness:
  "request_bounds (\<lambda>t::int. Inr (t * 1000000000)) 1500000000 None
     = Inr (1500000000000000000, 1500086400000000000)
   \<and> flightlist_bounds (\<lambda>t::int. Inr (t * 1000000000)) 1500000000 None
     = Inr (1500000000000000000, 1500086400000000000)
   \<and> history_bounds (\<lambda>t::int. Inr (t * 1000000000)) 1500000000 None
     = Inr (1500000000000000000, 1500086400000000000)
   \<and> rawdata_bounds (\<lambda>t::int. Inr (t * 1000000000)) TableNone 1500000000 None
     = Inr (map (\<lambda>t. (1500000000000000000, 1500086400000000000)) raw_tables)
   \<and> rawdata_bounds (\<lambda>t::int. Inr (t * 1000000000)) (TableStr ''position_data4'') 1500000000 None
     = Inr [(1500000000000000000, 1500086400000000000)]
   \<and> rawdata_bounds (\<lambda>t::int. Inr (t * 1000000000))
        (TableList [''position_data4'', ''velocity_data4'']) 1500000000 None
     = Inr [(1500000000000000000, 1500086400000000000),
            (1500000000000000000, 1500086400000000000)]"
proof -
  have a: "(\<lambda>t::int. (Inr (t * 1000000000) :: error + timestamp)) 1500000000
             = Inr 1500000000000000000" by simp
  have b: "(1500000000000000000::int) + Timedelta_1d \<le> Timestamp_max"
    by (simp add: Timedelta_1d_def Timestamp_max_def)
  have c: "''position_data4'' \<in> set raw_tables" by (simp add: raw_tables_def)
  have d: "set [''position_data4'', ''velocity_data4''] \<subseteq> set raw_tables"
    by (simp add: raw_tables_def)
  note t = stop_defaults_to_start_plus_one_day
      [of "\<lambda>t::int. Inr (t * 1000000000)" 1500000000 1500000000000000000, OF a b]
  note first = t [THEN conjunct1]
  note second = t [THEN conjunct2, THEN conjunct1]
  note third = t [THEN conjunct2, THEN conjunct2, THEN conjunct1]
  note fourth = t [THEN conjunct2, THEN conjunct2, THEN conjunct2, THEN conjunct1]
  note fifth = t [THEN conjunct2, THEN conjunct2, THEN conjunct2, THEN conjunct2, THEN conjunct1]
  note sixth = t [THEN conjunct2, THEN conjunct2, THEN conjunct2, THEN conjunct2, THEN conjunct2]
  have e: "rawdata_bounds (\<lambda>t::int. Inr (t * 1000000000)) (TableStr ''position_data4'')
             1500000000 None = Inr [(1500000000000000000, 1500086400000000000)]"
    using fifth c by simp
  have f: "rawdata_bounds (\<lambda>t::int. Inr (t * 1000000000))
             (TableList [''position_data4'', ''velocity_data4'']) 1500000000 None
           = Inr [(1500000000000000000, 1500086400000000000),
                  (1500000000000000000, 1500086400000000000)]"
    using sixth d by simp
  show ?thesis
    using first second third fourth e f by simp
qed

end
